theory Spec2Isabelle
  imports Main "HOL-Library.Word"
begin

section \<open>IntervalAction.hpp: the gate, its time source and its unit of work\<close>

text \<open>
  The header declares a class \<open>IntervalAction\<close> with two private fields, \<open>interval\<close> and
  \<open>t_prev\<close>, both \<open>uint32_t\<close>. The time source is the template parameter
  \<open>timer_function\<close>, a function without arguments that returns a \<open>uint32_t\<close>; the unit
  of work is the callable \<open>func\<close> handed to \<open>operator()\<close>.

  The source fixes the width of both fields and of the time source at 32 bits. The model
  is written for any width \<open>'a\<close>; \<open>u32\<close> is the instance of the source. Subtraction and
  comparison on \<open>'a word\<close> are those of C++ on an unsigned type of that width: \<open>-\<close> wraps
  around and \<open>\<le>\<close> compares the unsigned values.

  The class \<open>IntervalActionUstdClock\<close> of the Arduino section has the same fields,
  constructor and \<open>operator()\<close>, with \<open>tool::clock.micros\<close> written out as the time
  source; it is \<open>IntervalAction\<close> with that time source as \<open>timer_function\<close>.
\<close>

type_synonym u32 = "32 word"

record (overloaded) ('a::len) IntervalAction =
  interval :: "'a word"
  t_prev :: "'a word"

text \<open>
  Reading the time source and running the unit of work are effects. The program state
  outside the gate (the clock, the hardware, the variables the unit of work captures) is
  the component \<open>env\<close> of a \<open>world\<close>; the gate is the component \<open>gate\<close>. The component
  \<open>trace\<close> is the history of what the gate has done: it grows by \<open>Sample v\<close> each time
  the gate calls its time source and gets \<open>v\<close>, and by \<open>Invoke\<close> each time the gate calls
  the unit of work. Nothing in the source reads it.
\<close>

datatype 'v event = Sample 'v | Invoke

record ('v, 'g, 'e) world =
  gate :: 'g
  env :: 'e
  trace :: "'v event list"

text \<open>
  A time source takes the state outside the gate and returns the reading together with
  that state after the call (a clock that has gone on, a stub that has counted the call).
  It has no access to the gate. A unit of work is any transformer of the world: it may
  change \<open>env\<close>, call \<open>set_interval\<close> on the gate, and poll.
\<close>

type_synonym ('a, 'e) timer = "'e \<Rightarrow> 'a word \<times> 'e"

type_synonym ('a, 'e) gate_world = "('a word, 'a IntervalAction, 'e) world"

type_synonym ('a, 'e) work = "('a, 'e) gate_world \<Rightarrow> ('a, 'e) gate_world"

text \<open>One call of the time source by the gate.\<close>

definition sample :: "('a::len, 'e) timer \<Rightarrow> ('a word, 'g, 'e) world \<Rightarrow> 'a word \<times> ('a word, 'g, 'e) world" where
  "sample timer_function w =
     (case timer_function (env w) of
        (v, e') \<Rightarrow> (v, w\<lparr>env := e', trace := trace w @ [Sample v]\<rparr>))"

text \<open>
  The constructor \<open>IntervalAction(const uint32_t iv) : interval(iv), t_prev(timer_function()) {}\<close>.
\<close>

definition IntervalAction_ctor :: "('a::len, 'e) timer \<Rightarrow> 'a word \<Rightarrow> 'e \<Rightarrow> ('a, 'e) gate_world" where
  "IntervalAction_ctor timer_function iv e =
     (case timer_function e of
        (v, e') \<Rightarrow> \<lparr>gate = \<lparr>interval = iv, t_prev = v\<rparr>, env = e', trace = [Sample v]\<rparr>)"

text \<open>The accessors \<open>set_interval\<close>, \<open>get_interval\<close> and \<open>get_prev\<close>.\<close>

definition set_interval :: "'a::len word \<Rightarrow> 'a IntervalAction \<Rightarrow> 'a IntervalAction" where
  "set_interval iv g = g\<lparr>interval := iv\<rparr>"

definition get_interval :: "'a::len IntervalAction \<Rightarrow> 'a word" where
  "get_interval g = interval g"

definition get_prev :: "'a::len IntervalAction \<Rightarrow> 'a word" where
  "get_prev g = t_prev g"

text \<open>
  The poll:
  \<^verbatim>\<open>
  template<typename T> void operator()(const T&& func) {
    if(timer_function() - t_prev >= interval) {
      t_prev = timer_function();
      func();
    }
  }
  \<close>
  The time source is called once for the comparison and, when the comparison holds, a
  second time for the value stored in \<open>t_prev\<close>; the store precedes the call of \<open>func\<close>.
\<close>

definition operator_call :: "('a::len, 'e) timer \<Rightarrow> ('a, 'e) work \<Rightarrow> ('a, 'e) gate_world \<Rightarrow> ('a, 'e) gate_world" where
  "operator_call timer_function func w =
     (case sample timer_function w of
        (now, w1) \<Rightarrow>
          if now - t_prev (gate w1) \<ge> interval (gate w1) then
            (case sample timer_function w1 of
               (now', w2) \<Rightarrow>
                 func (w2\<lparr>gate := (gate w2)\<lparr>t_prev := now'\<rparr>, trace := trace w2 @ [Invoke]\<rparr>))
          else w1)"

text \<open>
  The caller's loop: one poll per element of the list, each with the unit of work handed
  to that poll (the lambda at the call site).
\<close>

fun run :: "('a::len, 'e) timer \<Rightarrow> ('a, 'e) work list \<Rightarrow> ('a, 'e) gate_world \<Rightarrow> ('a, 'e) gate_world" where
  "run timer_function [] w = w"
| "run timer_function (func # funcs) w = run timer_function funcs (operator_call timer_function func w)"

text \<open>What a trace shows: the readings the gate took, in order, and how often it called the unit of work.\<close>

fun samples :: "'v event list \<Rightarrow> 'v list" where
  "samples [] = []"
| "samples (Sample v # tr) = v # samples tr"
| "samples (Invoke # tr) = samples tr"

fun invocations :: "'v event list \<Rightarrow> nat" where
  "invocations [] = 0"
| "invocations (Sample v # tr) = invocations tr"
| "invocations (Invoke # tr) = Suc (invocations tr)"

text \<open>
  A unit of work that does not poll the gate it runs under. \<open>t_prev\<close> is private and has
  no setter, and the time source is called by the gate only in the constructor and in
  \<open>operator()\<close>; so such a unit of work leaves \<open>t_prev\<close> and the history of the gate as
  they are. It may still call \<open>set_interval\<close> and change \<open>env\<close>.
\<close>

definition unit_of_work :: "('a::len, 'e) work \<Rightarrow> bool" where
  "unit_of_work func \<longleftrightarrow>
     (\<forall>w. trace (func w) = trace w \<and> t_prev (gate (func w)) = t_prev (gate w))"

text \<open>
  The unit of work of the usage example in the header, which calls \<open>set_interval\<close> on
  the gate it runs under (\<open>ia_work.set_interval(1'000'000)\<close>), without the printing.
\<close>

definition reconfigure :: "'a::len word \<Rightarrow> ('a, 'e) work" where
  "reconfigure iv w = w\<lparr>gate := set_interval iv (gate w)\<rparr>"

text \<open>
  The gate is closed in a state when the comparison of a poll started there fails: the
  first reading minus \<open>t_prev\<close> is below \<open>interval\<close>.
\<close>

definition gate_closed :: "('a::len, 'e) timer \<Rightarrow> ('a, 'e) gate_world \<Rightarrow> bool" where
  "gate_closed timer_function w \<longleftrightarrow>
     fst (timer_function (env w)) - t_prev (gate w) < interval (gate w)"

subsection \<open>Stub time sources\<close>

text \<open>
  \<open>frozen t\<close> reads \<open>t\<close> at every call: the time does not move while the gate is polled.
  \<open>ticking d\<close> is a free-running counter kept in \<open>env\<close> that goes on by \<open>d\<close> with every
  call and wraps around at the width. \<open>scripted\<close> returns the readings of a list kept in
  \<open>env\<close>, one per call; a script that has run out reads \<open>0\<close>.
\<close>

definition frozen :: "'a::len word \<Rightarrow> ('a, 'e) timer" where
  "frozen t e = (t, e)"

definition ticking :: "'a::len word \<Rightarrow> ('a, 'a word) timer" where
  "ticking d e = (e, e + d)"

fun scripted :: "('a::len, 'a word list) timer" where
  "scripted [] = (0, [])"
| "scripted (t # ts) = (t, ts)"

section \<open>The variants IntervalActionMEMFN and IntervalActionTPL\<close>

text \<open>
  \<open>IntervalActionMEMFN<T, &T::method>\<close> keeps a reference \<open>clock_\<close> to an object of
  class \<open>T\<close> and calls the const method \<open>timer_function\<close> on it. The model keeps the
  handle of the object in the field \<open>clock\<close> (the source's \<open>clock_\<close>: a name cannot end
  with an underscore here); the object itself is part of \<open>env\<close>, which the method reads.
  The constructor calls the method on its argument \<open>cclass\<close> (\<open>clock_\<close> is initialised
  last).
\<close>

record (overloaded) ('a::len, 't) IntervalActionMEMFN =
  interval_memfn :: "'a word"
  t_prev_memfn :: "'a word"
  clock :: 't

type_synonym ('a, 't, 'e) memfn_world = "('a word, ('a, 't) IntervalActionMEMFN, 'e) world"

definition IntervalActionMEMFN_ctor ::
  "('t \<Rightarrow> ('a::len, 'e) timer) \<Rightarrow> 't \<Rightarrow> 'a word \<Rightarrow> 'e \<Rightarrow> ('a, 't, 'e) memfn_world" where
  "IntervalActionMEMFN_ctor timer_function cclass iv e =
     (case timer_function cclass e of
        (v, e') \<Rightarrow>
          \<lparr>gate = \<lparr>interval_memfn = iv, t_prev_memfn = v, clock = cclass\<rparr>,
           env = e', trace = [Sample v]\<rparr>)"

definition set_interval_memfn :: "'a::len word \<Rightarrow> ('a, 't) IntervalActionMEMFN \<Rightarrow> ('a, 't) IntervalActionMEMFN" where
  "set_interval_memfn iv g = g\<lparr>interval_memfn := iv\<rparr>"

definition operator_call_memfn ::
  "('t \<Rightarrow> ('a::len, 'e) timer) \<Rightarrow> (('a, 't, 'e) memfn_world \<Rightarrow> ('a, 't, 'e) memfn_world)
     \<Rightarrow> ('a, 't, 'e) memfn_world \<Rightarrow> ('a, 't, 'e) memfn_world" where
  "operator_call_memfn timer_function func w =
     (case sample (timer_function (clock (gate w))) w of
        (now, w1) \<Rightarrow>
          if now - t_prev_memfn (gate w1) \<ge> interval_memfn (gate w1) then
            (case sample (timer_function (clock (gate w1))) w1 of
               (now', w2) \<Rightarrow>
                 func (w2\<lparr>gate := (gate w2)\<lparr>t_prev_memfn := now'\<rparr>, trace := trace w2 @ [Invoke]\<rparr>))
          else w1)"

fun run_memfn ::
  "('t \<Rightarrow> ('a::len, 'e) timer) \<Rightarrow> (('a, 't, 'e) memfn_world \<Rightarrow> ('a, 't, 'e) memfn_world) list
     \<Rightarrow> ('a, 't, 'e) memfn_world \<Rightarrow> ('a, 't, 'e) memfn_world" where
  "run_memfn timer_function [] w = w"
| "run_memfn timer_function (func # funcs) w =
     run_memfn timer_function funcs (operator_call_memfn timer_function func w)"

text \<open>
  \<open>IntervalActionTPL<FUNC>\<close> keeps a reference \<open>timer_function\<close> to a callable value and
  calls it. The field is declared first, so the constructor's \<open>t_prev(timer_function())\<close>
  calls the stored callable.
\<close>

record (overloaded) ('a::len, 'e) IntervalActionTPL =
  timer_function_tpl :: "('a, 'e) timer"
  interval_tpl :: "'a word"
  t_prev_tpl :: "'a word"

type_synonym ('a, 'e) tpl_world = "('a word, ('a, 'e) IntervalActionTPL, 'e) world"

definition IntervalActionTPL_ctor :: "('a::len, 'e) timer \<Rightarrow> 'a word \<Rightarrow> 'e \<Rightarrow> ('a, 'e) tpl_world" where
  "IntervalActionTPL_ctor tf iv e =
     (case tf e of
        (v, e') \<Rightarrow>
          \<lparr>gate = \<lparr>timer_function_tpl = tf, interval_tpl = iv, t_prev_tpl = v\<rparr>,
           env = e', trace = [Sample v]\<rparr>)"

definition set_interval_tpl :: "'a::len word \<Rightarrow> ('a, 'e) IntervalActionTPL \<Rightarrow> ('a, 'e) IntervalActionTPL" where
  "set_interval_tpl iv g = g\<lparr>interval_tpl := iv\<rparr>"

definition operator_call_tpl ::
  "(('a::len, 'e) tpl_world \<Rightarrow> ('a, 'e) tpl_world) \<Rightarrow> ('a, 'e) tpl_world \<Rightarrow> ('a, 'e) tpl_world" where
  "operator_call_tpl func w =
     (case sample (timer_function_tpl (gate w)) w of
        (now, w1) \<Rightarrow>
          if now - t_prev_tpl (gate w1) \<ge> interval_tpl (gate w1) then
            (case sample (timer_function_tpl (gate w1)) w1 of
               (now', w2) \<Rightarrow>
                 func (w2\<lparr>gate := (gate w2)\<lparr>t_prev_tpl := now'\<rparr>, trace := trace w2 @ [Invoke]\<rparr>))
          else w1)"

fun run_tpl ::
  "(('a::len, 'e) tpl_world \<Rightarrow> ('a, 'e) tpl_world) list \<Rightarrow> ('a, 'e) tpl_world \<Rightarrow> ('a, 'e) tpl_world" where
  "run_tpl [] w = w"
| "run_tpl (func # funcs) w = run_tpl funcs (operator_call_tpl func w)"

text \<open>
  A gate of a variant and a gate of \<open>IntervalAction\<close> are in the same state when their
  \<open>interval\<close> and \<open>t_prev\<close> agree, the variant is bound to the given time source, and the
  state outside the gate and the history agree.
\<close>

definition same_state_memfn :: "'t \<Rightarrow> ('a::len, 't, 'e) memfn_world \<Rightarrow> ('a, 'e) gate_world \<Rightarrow> bool" where
  "same_state_memfn c wm w \<longleftrightarrow>
     interval_memfn (gate wm) = interval (gate w) \<and> t_prev_memfn (gate wm) = t_prev (gate w) \<and>
     clock (gate wm) = c \<and> env wm = env w \<and> trace wm = trace w"

definition same_state_tpl :: "('a::len, 'e) timer \<Rightarrow> ('a, 'e) tpl_world \<Rightarrow> ('a, 'e) gate_world \<Rightarrow> bool" where
  "same_state_tpl tf wt w \<longleftrightarrow>
     interval_tpl (gate wt) = interval (gate w) \<and> t_prev_tpl (gate wt) = t_prev (gate w) \<and>
     timer_function_tpl (gate wt) = tf \<and> env wt = env w \<and> trace wt = trace w"

text \<open>
  Units of work handed to a variant and to \<open>IntervalAction\<close> correspond when they take
  gates in the same state to gates in the same state: they do the same to \<open>env\<close> and
  make the same calls of \<open>set_interval\<close> and of the poll.
\<close>

definition corresponding_memfn ::
  "'t \<Rightarrow> (('a::len, 't, 'e) memfn_world \<Rightarrow> ('a, 't, 'e) memfn_world) \<Rightarrow> ('a, 'e) work \<Rightarrow> bool" where
  "corresponding_memfn c func_m func \<longleftrightarrow>
     (\<forall>wm w. same_state_memfn c wm w \<longrightarrow> same_state_memfn c (func_m wm) (func w))"

definition corresponding_tpl ::
  "('a::len, 'e) timer \<Rightarrow> (('a, 'e) tpl_world \<Rightarrow> ('a, 'e) tpl_world) \<Rightarrow> ('a, 'e) work \<Rightarrow> bool" where
  "corresponding_tpl tf func_t func \<longleftrightarrow>
     (\<forall>wt w. same_state_tpl tf wt w \<longrightarrow> same_state_tpl tf (func_t wt) (func w))"

text \<open>The unit of work of the usage example, for the variants.\<close>

definition reconfigure_memfn :: "'a::len word \<Rightarrow> ('a, 't, 'e) memfn_world \<Rightarrow> ('a, 't, 'e) memfn_world" where
  "reconfigure_memfn iv w = w\<lparr>gate := set_interval_memfn iv (gate w)\<rparr>"

definition reconfigure_tpl :: "'a::len word \<Rightarrow> ('a, 'e) tpl_world \<Rightarrow> ('a, 'e) tpl_world" where
  "reconfigure_tpl iv w = w\<lparr>gate := set_interval_tpl iv (gate w)\<rparr>"

section \<open>One poll\<close>

text \<open>The two outcomes of a poll, in terms of the readings of the time source.\<close>

lemma operator_call_fires:
  assumes "tf (env w) = (a, e1)" and "tf e1 = (b, e2)"
    and "interval (gate w) \<le> a - t_prev (gate w)"
  shows "operator_call tf func w =
    func \<lparr>gate = (gate w)\<lparr>t_prev := b\<rparr>, env = e2,
          trace = trace w @ [Sample a, Sample b, Invoke]\<rparr>"
  using assms by (cases w) (simp add: operator_call_def sample_def)

lemma operator_call_closed:
  assumes "tf (env w) = (a, e1)"
    and "a - t_prev (gate w) < interval (gate w)"
  shows "operator_call tf func w = \<lparr>gate = gate w, env = e1, trace = trace w @ [Sample a]\<rparr>"
  using assms by (cases w) (simp add: operator_call_def sample_def not_le [symmetric])

lemma samples_append: "samples (xs @ ys) = samples xs @ samples ys"
  by (induction xs rule: samples.induct) simp_all

lemma invocations_append: "invocations (xs @ ys) = invocations xs + invocations ys"
  by (induction xs rule: invocations.induct) simp_all

lemma unit_of_work_id: "unit_of_work id"
  by (simp add: unit_of_work_def)

text \<open>Subtraction on words, read as unsigned numbers: the difference modulo \<open>2 ^ LENGTH('a)\<close>.\<close>

lemma unat_sub_mod:
  fixes a b :: "'a::len word"
  shows "unat (a - b) = (unat a + 2 ^ LENGTH('a) - unat b) mod 2 ^ LENGTH('a)"
proof (cases "unat b \<le> unat a")
  case True
  have "unat a - unat b < 2 ^ LENGTH('a)"
    using unsigned_less [of a] by (simp add: less_imp_diff_less)
  then have small: "(unat a - unat b) mod 2 ^ LENGTH('a) = unat a - unat b"
    by simp
  from True have "unat a + 2 ^ LENGTH('a) - unat b = (unat a - unat b) + 2 ^ LENGTH('a)"
    by simp
  then have "(unat a + 2 ^ LENGTH('a) - unat b) mod 2 ^ LENGTH('a) = unat a - unat b"
    by (simp only: mod_add_self2 small)
  with True show ?thesis by (simp only: unat_sub_if' if_True)
next
  case False
  have "unat b < 2 ^ LENGTH('a)" by (rule unsigned_less)
  with False have "unat a + 2 ^ LENGTH('a) - unat b < 2 ^ LENGTH('a)" by arith
  then have "(unat a + 2 ^ LENGTH('a) - unat b) mod 2 ^ LENGTH('a) = unat a + 2 ^ LENGTH('a) - unat b"
    by simp
  with False show ?thesis by (simp only: unat_sub_if' if_False)
qed

section \<open>Wraparound\<close>

text \<open>
  Claim C2. The elapsed time is the modular unsigned difference of the reading and
  \<open>t_prev\<close> at the width of the fields, and the poll fires exactly when that difference
  reaches \<open>interval\<close>; so a time source that has wrapped around still opens the gate.
  At 8 bits, with \<open>t_prev = 250\<close>, \<open>interval = 10\<close> and the reading \<open>4\<close>, the elapsed
  time is \<open>(4 - 250) mod 256 = 10\<close> and the gate fires.
\<close>

theorem wraparound_safe_elapsed:
  fixes w :: "('a::len, 'e) gate_world"
  assumes "tf (env w) = (now, e1)" and "tf e1 = (b, e2)"
  shows "unat (now - t_prev (gate w)) =
           (unat now + 2 ^ LENGTH('a) - unat (t_prev (gate w))) mod 2 ^ LENGTH('a) \<and>
         operator_call tf func w =
           (if unat (interval (gate w)) \<le>
                 (unat now + 2 ^ LENGTH('a) - unat (t_prev (gate w))) mod 2 ^ LENGTH('a)
            then func \<lparr>gate = (gate w)\<lparr>t_prev := b\<rparr>, env = e2,
                       trace = trace w @ [Sample now, Sample b, Invoke]\<rparr>
            else \<lparr>gate = gate w, env = e1, trace = trace w @ [Sample now]\<rparr>) \<and>
         unat ((4 :: 8 word) - 250) = 10 \<and>
         operator_call (frozen 4) func8
             \<lparr>gate = \<lparr>interval = 10, t_prev = (250 :: 8 word)\<rparr>, env = e8, trace = tr8\<rparr> =
           func8 \<lparr>gate = \<lparr>interval = 10, t_prev = 4\<rparr>, env = e8,
                  trace = tr8 @ [Sample 4, Sample 4, Invoke]\<rparr>"
proof (intro conjI)
  show m: "unat (now - t_prev (gate w)) =
           (unat now + 2 ^ LENGTH('a) - unat (t_prev (gate w))) mod 2 ^ LENGTH('a)"
    by (rule unat_sub_mod)
  show "operator_call tf func w =
           (if unat (interval (gate w)) \<le>
                 (unat now + 2 ^ LENGTH('a) - unat (t_prev (gate w))) mod 2 ^ LENGTH('a)
            then func \<lparr>gate = (gate w)\<lparr>t_prev := b\<rparr>, env = e2,
                       trace = trace w @ [Sample now, Sample b, Invoke]\<rparr>
            else \<lparr>gate = gate w, env = e1, trace = trace w @ [Sample now]\<rparr>)"
  proof (cases "interval (gate w) \<le> now - t_prev (gate w)")
    case True
    then have "unat (interval (gate w)) \<le> unat (now - t_prev (gate w))"
      by (simp add: word_le_nat_alt)
    with operator_call_fires [of tf w now e1 b e2 func] assms True show ?thesis
      by (simp add: m)
  next
    case False
    then have lt: "now - t_prev (gate w) < interval (gate w)" by simp
    then have "\<not> unat (interval (gate w)) \<le> unat (now - t_prev (gate w))"
      by (simp add: word_less_nat_alt)
    with operator_call_closed [of tf w now e1 func] assms lt show ?thesis
      by (simp add: m)
  qed
  show "unat ((4 :: 8 word) - 250) = 10" by simp
  show "operator_call (frozen 4) func8
             \<lparr>gate = \<lparr>interval = 10, t_prev = (250 :: 8 word)\<rparr>, env = e8, trace = tr8\<rparr> =
           func8 \<lparr>gate = \<lparr>interval = 10, t_prev = 4\<rparr>, env = e8,
                  trace = tr8 @ [Sample 4, Sample 4, Invoke]\<rparr>"
    by (simp add: operator_call_def sample_def frozen_def)
qed

text \<open>The same at the source's 32 bits: \<open>t_prev = 2 ^ 32 - 6\<close>, reading \<open>4\<close>, \<open>interval = 10\<close>.\<close>

theorem wraparound_safe_elapsed_witness:
  "unat ((4 :: u32) - 4294967290) = 10 \<and>
   operator_call (frozen 4) id
       \<lparr>gate = \<lparr>interval = 10, t_prev = (4294967290 :: u32)\<rparr>, env = (), trace = []\<rparr> =
     \<lparr>gate = \<lparr>interval = 10, t_prev = 4\<rparr>, env = (), trace = [Sample 4, Sample 4, Invoke]\<rparr>"
  using wraparound_safe_elapsed [of "frozen 4"
      "\<lparr>gate = \<lparr>interval = 10, t_prev = (4294967290 :: u32)\<rparr>, env = (), trace = []\<rparr>" 4 "()" 4 "()" id id "()" "[]"]
  by (simp add: frozen_def)

section \<open>How often the time source is read\<close>

text \<open>
  Claim C10. A poll that fires reads the time source exactly twice, first for the
  comparison and then for the value stored in \<open>t_prev\<close>; a poll that does not fire reads
  it exactly once. So when the time source goes on between the two readings, \<open>t_prev\<close>
  holds the second, later reading and not the one that was compared with \<open>interval\<close>.
\<close>

theorem firing_poll_samples_twice:
  assumes "unit_of_work func" and "tf (env w) = (a, e1)" and "tf e1 = (b, e2)"
  shows "(interval (gate w) \<le> a - t_prev (gate w) \<longrightarrow>
            samples (trace (operator_call tf func w)) = samples (trace w) @ [a, b] \<and>
            invocations (trace (operator_call tf func w)) = Suc (invocations (trace w)) \<and>
            t_prev (gate (operator_call tf func w)) = b) \<and>
         (a - t_prev (gate w) < interval (gate w) \<longrightarrow>
            samples (trace (operator_call tf func w)) = samples (trace w) @ [a] \<and>
            invocations (trace (operator_call tf func w)) = invocations (trace w) \<and>
            gate (operator_call tf func w) = gate w)"
proof (intro conjI impI)
  assume fire: "interval (gate w) \<le> a - t_prev (gate w)"
  have eq: "operator_call tf func w =
      func \<lparr>gate = (gate w)\<lparr>t_prev := b\<rparr>, env = e2, trace = trace w @ [Sample a, Sample b, Invoke]\<rparr>"
    using assms(2,3) fire by (rule operator_call_fires)
  from assms(1) show "samples (trace (operator_call tf func w)) = samples (trace w) @ [a, b]"
    by (simp add: eq unit_of_work_def samples_append)
  from assms(1) show "invocations (trace (operator_call tf func w)) = Suc (invocations (trace w))"
    by (simp add: eq unit_of_work_def invocations_append)
  from assms(1) show "t_prev (gate (operator_call tf func w)) = b"
    by (simp add: eq unit_of_work_def)
next
  assume closed: "a - t_prev (gate w) < interval (gate w)"
  have eq: "operator_call tf func w = \<lparr>gate = gate w, env = e1, trace = trace w @ [Sample a]\<rparr>"
    using assms(2) closed by (rule operator_call_closed)
  show "samples (trace (operator_call tf func w)) = samples (trace w) @ [a]"
    by (simp add: eq samples_append)
  show "invocations (trace (operator_call tf func w)) = invocations (trace w)"
    by (simp add: eq invocations_append)
  show "gate (operator_call tf func w) = gate w"
    by (simp add: eq)
qed

text \<open>
  A counter that goes on by 4 with every reading (the resolution of \<open>micros()\<close> on a
  16 MHz board): the poll compares 1600 and stores 1604.
\<close>

theorem firing_poll_samples_twice_witness:
  "samples (trace (operator_call (ticking 4) id
      \<lparr>gate = \<lparr>interval = 500, t_prev = 1000\<rparr>, env = (1600 :: u32), trace = []\<rparr>)) = [1600, 1604] \<and>
   invocations (trace (operator_call (ticking 4) id
      \<lparr>gate = \<lparr>interval = 500, t_prev = 1000\<rparr>, env = (1600 :: u32), trace = []\<rparr>)) = 1 \<and>
   t_prev (gate (operator_call (ticking 4) id
      \<lparr>gate = \<lparr>interval = 500, t_prev = 1000\<rparr>, env = (1600 :: u32), trace = []\<rparr>)) = 1604 \<and>
   (1604 :: u32) \<noteq> 1600"
  using firing_poll_samples_twice [of id "ticking 4"
      "\<lparr>gate = \<lparr>interval = 500, t_prev = 1000\<rparr>, env = (1600 :: u32), trace = []\<rparr>" 1600 1604 1604 1608]
  by (simp add: unit_of_work_id ticking_def)

section \<open>Polls of a closed gate\<close>

lemma unit_of_work_reconfigure: "unit_of_work (reconfigure iv)"
  by (simp add: unit_of_work_def reconfigure_def set_interval_def)

lemma operator_call_gate_closed:
  assumes "gate_closed tf w"
  shows "operator_call tf func w =
    \<lparr>gate = gate w, env = snd (tf (env w)), trace = trace w @ [Sample (fst (tf (env w)))]\<rparr>"
  using assms operator_call_closed [of tf w "fst (tf (env w))" "snd (tf (env w))" func]
  by (simp add: gate_closed_def)

lemma operator_call_cases:
  "operator_call tf func w =
     (if gate_closed tf w
      then \<lparr>gate = gate w, env = snd (tf (env w)), trace = trace w @ [Sample (fst (tf (env w)))]\<rparr>
      else func \<lparr>gate = (gate w)\<lparr>t_prev := fst (tf (snd (tf (env w))))\<rparr>,
                 env = snd (tf (snd (tf (env w)))),
                 trace = trace w @ [Sample (fst (tf (env w))), Sample (fst (tf (snd (tf (env w))))), Invoke]\<rparr>)"
proof (cases "gate_closed tf w")
  case True
  then show ?thesis by (simp add: operator_call_gate_closed)
next
  case False
  then have "interval (gate w) \<le> fst (tf (env w)) - t_prev (gate w)"
    by (simp add: gate_closed_def)
  with False operator_call_fires [of tf w "fst (tf (env w))" "snd (tf (env w))"
      "fst (tf (snd (tf (env w))))" "snd (tf (snd (tf (env w))))" func]
  show ?thesis by simp
qed

lemma run_gate_closed:
  "(\<And>i. i < length fs \<Longrightarrow> gate_closed tf (run tf (take i fs) w)) \<Longrightarrow>
   gate (run tf fs w) = gate w \<and>
   invocations (trace (run tf fs w)) = invocations (trace w) \<and>
   length (samples (trace (run tf fs w))) = length (samples (trace w)) + length fs \<and>
   env (run tf fs w) = ((\<lambda>e. snd (tf e)) ^^ length fs) (env w)"
proof (induction fs arbitrary: w)
  case Nil
  show ?case by simp
next
  case (Cons f fs)
  from Cons.prems [of 0] have c0: "gate_closed tf w" by simp
  let ?w1 = "operator_call tf f w"
  have w1: "?w1 = \<lparr>gate = gate w, env = snd (tf (env w)), trace = trace w @ [Sample (fst (tf (env w)))]\<rparr>"
    using c0 by (rule operator_call_gate_closed)
  have rest: "\<And>i. i < length fs \<Longrightarrow> gate_closed tf (run tf (take i fs) ?w1)"
  proof -
    fix i assume "i < length fs"
    then have "Suc i < length (f # fs)" by simp
    from Cons.prems [OF this] show "gate_closed tf (run tf (take i fs) ?w1)" by simp
  qed
  have swap: "((\<lambda>e. snd (tf e)) ^^ length fs) (snd (tf (env w))) =
      snd (tf (((\<lambda>e. snd (tf e)) ^^ length fs) (env w)))"
    using funpow_swap1 [of "\<lambda>e. snd (tf e)" "length fs" "env w"] by simp
  from Cons.IH [OF rest] show ?case
    by (simp add: w1 samples_append invocations_append swap)
qed

text \<open>
  Claim C3. In every state of the gate, a poll whose elapsed time is below \<open>interval\<close>
  changes neither \<open>t_prev\<close> nor \<open>interval\<close> and does not call the unit of work, and so
  does any number of such polls in a row: the gate is as it was, no call of the unit of
  work has been added, and the state outside the gate has changed only by the time
  source's own calls, one per poll.
\<close>

theorem closed_gate_poll_has_no_effect:
  "(gate_closed tf w \<longrightarrow>
      operator_call tf func w =
        \<lparr>gate = gate w, env = snd (tf (env w)), trace = trace w @ [Sample (fst (tf (env w)))]\<rparr>) \<and>
   ((\<forall>i<length fs. gate_closed tf (run tf (take i fs) w)) \<longrightarrow>
      gate (run tf fs w) = gate w \<and>
      invocations (trace (run tf fs w)) = invocations (trace w) \<and>
      length (samples (trace (run tf fs w))) = length (samples (trace w)) + length fs \<and>
      env (run tf fs w) = ((\<lambda>e. snd (tf e)) ^^ length fs) (env w))"
proof (intro conjI impI)
  assume "gate_closed tf w"
  then show "operator_call tf func w =
        \<lparr>gate = gate w, env = snd (tf (env w)), trace = trace w @ [Sample (fst (tf (env w)))]\<rparr>"
    by (rule operator_call_gate_closed)
next
  assume a: "\<forall>i<length fs. gate_closed tf (run tf (take i fs) w)"
  then have "\<And>i. i < length fs \<Longrightarrow> gate_closed tf (run tf (take i fs) w)" by simp
  from run_gate_closed [OF this]
  show "gate (run tf fs w) = gate w"
    and "invocations (trace (run tf fs w)) = invocations (trace w)"
    and "length (samples (trace (run tf fs w))) = length (samples (trace w)) + length fs"
    and "env (run tf fs w) = ((\<lambda>e. snd (tf e)) ^^ length fs) (env w)"
    by simp_all
qed

text \<open>
  Three polls at 1200, 1300 and 1400 of a gate that fired last at 1000 and has the
  interval 500, with a unit of work that would set the interval to 0 if it ran.
\<close>

theorem closed_gate_poll_has_no_effect_witness:
  "gate_closed scripted
     \<lparr>gate = \<lparr>interval = 500, t_prev = (1000 :: u32)\<rparr>, env = [1200, 1300, 1400], trace = []\<rparr> \<and>
   operator_call scripted (reconfigure 0)
     \<lparr>gate = \<lparr>interval = 500, t_prev = (1000 :: u32)\<rparr>, env = [1200, 1300, 1400], trace = []\<rparr> =
     \<lparr>gate = \<lparr>interval = 500, t_prev = 1000\<rparr>, env = [1300, 1400], trace = [Sample 1200]\<rparr> \<and>
   gate (run scripted [reconfigure 0, reconfigure 0, reconfigure 0]
     \<lparr>gate = \<lparr>interval = 500, t_prev = (1000 :: u32)\<rparr>, env = [1200, 1300, 1400], trace = []\<rparr>) =
     \<lparr>interval = 500, t_prev = 1000\<rparr> \<and>
   invocations (trace (run scripted [reconfigure 0, reconfigure 0, reconfigure 0]
     \<lparr>gate = \<lparr>interval = 500, t_prev = (1000 :: u32)\<rparr>, env = [1200, 1300, 1400], trace = []\<rparr>)) = 0"
proof -
  let ?w = "\<lparr>gate = \<lparr>interval = 500, t_prev = (1000 :: u32)\<rparr>, env = [1200, 1300, 1400 :: u32], trace = []\<rparr>"
  let ?fs = "[reconfigure 0, reconfigure 0, reconfigure 0 :: (32, u32 list) work]"
  note T = closed_gate_poll_has_no_effect [of scripted ?w "reconfigure 0" ?fs]
  have c: "gate_closed scripted ?w" by (simp add: gate_closed_def)
  have r: "\<forall>i<length ?fs. gate_closed scripted (run scripted (take i ?fs) ?w)"
    by (simp add: All_less_Suc gate_closed_def operator_call_def sample_def)
  from T [THEN conjunct1, THEN mp, OF c]
  have p1: "operator_call scripted (reconfigure 0) ?w =
      \<lparr>gate = \<lparr>interval = 500, t_prev = 1000\<rparr>, env = [1300, 1400], trace = [Sample 1200]\<rparr>"
    by simp
  from T [THEN conjunct2, THEN mp, OF r]
  have p2: "gate (run scripted ?fs ?w) = \<lparr>interval = 500, t_prev = 1000\<rparr>"
    and p3: "invocations (trace (run scripted ?fs ?w)) = 0"
    by simp_all
  from c p1 p2 p3 show ?thesis by (intro conjI)
qed

section \<open>The interval 0\<close>

lemma zero_interval_open: "interval (gate w) = 0 \<Longrightarrow> \<not> gate_closed tf w"
  by (simp add: gate_closed_def)

lemma run_zero_interval:
  assumes "\<And>f. f \<in> set fs \<Longrightarrow> unit_of_work f \<and> (\<forall>v. interval (gate v) = 0 \<longrightarrow> interval (gate (f v)) = 0)"
    and "interval (gate w) = 0"
  shows "invocations (trace (run tf fs w)) = invocations (trace w) + length fs \<and>
         interval (gate (run tf fs w)) = 0"
  using assms
proof (induction fs arbitrary: w)
  case Nil
  then show ?case by simp
next
  case (Cons f fs)
  let ?v = "\<lparr>gate = (gate w)\<lparr>t_prev := fst (tf (snd (tf (env w))))\<rparr>,
             env = snd (tf (snd (tf (env w)))),
             trace = trace w @ [Sample (fst (tf (env w))), Sample (fst (tf (snd (tf (env w))))), Invoke]\<rparr>"
  have f: "unit_of_work f" "\<forall>v. interval (gate v) = 0 \<longrightarrow> interval (gate (f v)) = 0"
    using Cons.prems(1) [of f] by simp_all
  have step: "operator_call tf f w = f ?v"
    using zero_interval_open [OF Cons.prems(2), of tf] by (simp add: operator_call_cases)
  have "interval (gate ?v) = 0" using Cons.prems(2) by simp
  with f(2) have z: "interval (gate (f ?v)) = 0" by blast
  have tr: "trace (f ?v) = trace ?v" using f(1) by (simp add: unit_of_work_def)
  have "invocations (trace (run tf fs (f ?v))) = invocations (trace (f ?v)) + length fs \<and>
        interval (gate (run tf fs (f ?v))) = 0"
    using Cons.prems(1) z by (intro Cons.IH) simp_all
  then show ?case by (simp add: step tr invocations_append)
qed

text \<open>
  Claim C4. With \<open>interval = 0\<close> every poll fires, whatever the elapsed time, also when
  it is zero: the poll stores the second reading in \<open>t_prev\<close> and calls the unit of work;
  and as long as the units of work leave the interval at 0, a run of polls calls the unit
  of work once per poll.
\<close>

theorem zero_interval_fires_on_every_poll:
  assumes "interval (gate w) = 0"
  shows "(\<forall>a e1 b e2. tf (env w) = (a, e1) \<longrightarrow> tf e1 = (b, e2) \<longrightarrow>
            operator_call tf func w =
              func \<lparr>gate = (gate w)\<lparr>t_prev := b\<rparr>, env = e2,
                    trace = trace w @ [Sample a, Sample b, Invoke]\<rparr>) \<and>
         ((\<forall>f\<in>set fs. unit_of_work f \<and> (\<forall>v. interval (gate v) = 0 \<longrightarrow> interval (gate (f v)) = 0)) \<longrightarrow>
            invocations (trace (run tf fs w)) = invocations (trace w) + length fs)"
proof (intro conjI allI impI)
  fix a e1 b e2
  assume "tf (env w) = (a, e1)" and "tf e1 = (b, e2)"
  moreover have "interval (gate w) \<le> a - t_prev (gate w)" using assms by simp
  ultimately show "operator_call tf func w =
      func \<lparr>gate = (gate w)\<lparr>t_prev := b\<rparr>, env = e2, trace = trace w @ [Sample a, Sample b, Invoke]\<rparr>"
    by (rule operator_call_fires)
next
  assume "\<forall>f\<in>set fs. unit_of_work f \<and> (\<forall>v. interval (gate v) = 0 \<longrightarrow> interval (gate (f v)) = 0)"
  then have "\<And>f. f \<in> set fs \<Longrightarrow> unit_of_work f \<and> (\<forall>v. interval (gate v) = 0 \<longrightarrow> interval (gate (f v)) = 0)"
    by blast
  from run_zero_interval [OF this assms]
  show "invocations (trace (run tf fs w)) = invocations (trace w) + length fs" by simp
qed

text \<open>Polls at the very time of the last firing, so with the elapsed time 0.\<close>

theorem zero_interval_fires_on_every_poll_witness:
  "operator_call (frozen 1000) id
     \<lparr>gate = \<lparr>interval = 0, t_prev = (1000 :: u32)\<rparr>, env = (), trace = []\<rparr> =
     \<lparr>gate = \<lparr>interval = 0, t_prev = 1000\<rparr>, env = (), trace = [Sample 1000, Sample 1000, Invoke]\<rparr> \<and>
   invocations (trace (run (frozen 1000) [id, id, id]
     \<lparr>gate = \<lparr>interval = 0, t_prev = (1000 :: u32)\<rparr>, env = (), trace = []\<rparr>)) = 3"
proof -
  let ?w = "\<lparr>gate = \<lparr>interval = 0, t_prev = (1000 :: u32)\<rparr>, env = (), trace = []\<rparr>"
  let ?fs = "[id, id, id :: (32, unit) work]"
  have z: "interval (gate ?w) = 0" by simp
  note T = zero_interval_fires_on_every_poll [OF z, of "frozen 1000" id ?fs]
  have r: "frozen 1000 (env ?w) = (1000 :: u32, ())" "frozen (1000 :: u32) () = (1000, ())"
    by (simp_all add: frozen_def)
  from T [THEN conjunct1, THEN spec, THEN spec, THEN spec, THEN spec, THEN mp, THEN mp, OF r]
  have p1: "operator_call (frozen 1000) id ?w =
     \<lparr>gate = \<lparr>interval = 0, t_prev = 1000\<rparr>, env = (), trace = [Sample 1000, Sample 1000, Invoke]\<rparr>"
    by simp
  have u: "\<forall>f\<in>set ?fs. unit_of_work f \<and> (\<forall>v. interval (gate v) = 0 \<longrightarrow> interval (gate (f v)) = 0)"
    by (simp add: unit_of_work_id)
  from T [THEN conjunct2, THEN mp, OF u]
  have p2: "invocations (trace (run (frozen 1000) ?fs ?w)) = 3" by simp
  from p1 p2 show ?thesis by (intro conjI)
qed

section \<open>Sequences of polls\<close>

lemma run_append: "run tf (xs @ ys) w = run tf ys (run tf xs w)"
  by (induction xs arbitrary: w) simp_all

lemma run_take_Suc:
  "i < length fs \<Longrightarrow> run tf (take (Suc i) fs) w = operator_call tf (fs ! i) (run tf (take i fs) w)"
  by (simp add: take_Suc_conv_app_nth run_append)

lemma run_split_at:
  assumes "i < length fs"
  shows "run tf fs w = run tf (drop (Suc i) fs) (operator_call tf (fs ! i) (run tf (take i fs) w))"
proof -
  have "fs = take (Suc i) fs @ drop (Suc i) fs" by simp
  then have "run tf fs w = run tf (drop (Suc i) fs) (run tf (take (Suc i) fs) w)"
    by (metis run_append)
  with assms show ?thesis by (simp add: run_take_Suc)
qed

text \<open>What a poll with a unit of work that does not poll adds to the history, and what it leaves in \<open>t_prev\<close>.\<close>

lemma operator_call_trace:
  assumes "unit_of_work func"
  shows "trace (operator_call tf func w) =
     trace w @ (if gate_closed tf w then [Sample (fst (tf (env w)))]
                else [Sample (fst (tf (env w))), Sample (fst (tf (snd (tf (env w))))), Invoke])"
  using assms by (simp add: operator_call_cases unit_of_work_def)

lemma operator_call_t_prev:
  assumes "unit_of_work func"
  shows "t_prev (gate (operator_call tf func w)) =
     (if gate_closed tf w then t_prev (gate w) else fst (tf (snd (tf (env w)))))"
  using assms by (simp add: operator_call_cases unit_of_work_def)

lemma run_trace_extends:
  assumes "\<And>f. f \<in> set fs \<Longrightarrow> unit_of_work f"
  shows "\<exists>tr. trace (run tf fs w) = trace w @ tr"
  using assms
proof (induction fs arbitrary: w)
  case Nil
  show ?case by simp
next
  case (Cons f fs)
  have "unit_of_work f" using Cons.prems by simp
  then obtain tr1 where t1: "trace (operator_call tf f w) = trace w @ tr1"
    using operator_call_trace [of f tf w] by blast
  obtain tr2 where "trace (run tf fs (operator_call tf f w)) = trace (operator_call tf f w) @ tr2"
    using Cons.IH [of "operator_call tf f w"] Cons.prems by auto
  with t1 show ?case by simp
qed

text \<open>The value of \<open>t_prev\<close> is always one of the readings the gate has taken.\<close>

lemma operator_call_t_prev_sampled:
  assumes "unit_of_work func" and "t_prev (gate w) \<in> set (samples (trace w))"
  shows "t_prev (gate (operator_call tf func w)) \<in> set (samples (trace (operator_call tf func w)))"
  using assms by (simp add: operator_call_trace operator_call_t_prev samples_append)

lemma run_t_prev_sampled:
  assumes "\<And>f. f \<in> set fs \<Longrightarrow> unit_of_work f" and "t_prev (gate w) \<in> set (samples (trace w))"
  shows "t_prev (gate (run tf fs w)) \<in> set (samples (trace (run tf fs w)))"
  using assms
proof (induction fs arbitrary: w)
  case Nil
  then show ?case by simp
next
  case (Cons f fs)
  have "t_prev (gate (operator_call tf f w)) \<in> set (samples (trace (operator_call tf f w)))"
    using Cons.prems by (intro operator_call_t_prev_sampled) simp_all
  with Cons.prems(1) show ?case by (simp add: Cons.IH)
qed

lemma ctor_t_prev_sampled:
  "t_prev (gate (IntervalAction_ctor tf iv e)) \<in> set (samples (trace (IntervalAction_ctor tf iv e)))"
  by (simp add: IntervalAction_ctor_def split: prod.split)

text \<open>
  When the readings of a whole run never decrease, \<open>t_prev\<close> is at most the reading of
  every poll: the subtraction of the comparison does not wrap around.
\<close>

lemma no_wraparound_at_poll:
  assumes works: "\<And>f. f \<in> set fs \<Longrightarrow> unit_of_work f"
    and mono: "sorted (samples (trace (run tf fs (IntervalAction_ctor tf iv e0))))"
    and i: "i < length fs"
  shows "t_prev (gate (run tf (take i fs) (IntervalAction_ctor tf iv e0)))
           \<le> fst (tf (env (run tf (take i fs) (IntervalAction_ctor tf iv e0))))"
proof -
  let ?c = "IntervalAction_ctor tf iv e0"
  let ?w = "run tf (take i fs) ?c"
  have wi: "unit_of_work (fs ! i)" using works i by simp
  have "\<And>f. f \<in> set (take i fs) \<Longrightarrow> unit_of_work f"
    using works by (auto dest: in_set_takeD)
  then have inv: "t_prev (gate ?w) \<in> set (samples (trace ?w))"
    using ctor_t_prev_sampled by (rule run_t_prev_sampled)
  have "\<And>f. f \<in> set (drop (Suc i) fs) \<Longrightarrow> unit_of_work f"
    using works by (auto dest: in_set_dropD)
  then obtain tr where "trace (run tf (drop (Suc i) fs) (operator_call tf (fs ! i) ?w)) =
      trace (operator_call tf (fs ! i) ?w) @ tr"
    using run_trace_extends by blast
  then have "trace (run tf fs ?c) = trace (operator_call tf (fs ! i) ?w) @ tr"
    using run_split_at [OF i] by simp
  then obtain tr' where "trace (run tf fs ?c) = trace ?w @ Sample (fst (tf (env ?w))) # tr'"
    using operator_call_trace [OF wi, of tf ?w] by (cases "gate_closed tf ?w") simp_all
  then have "sorted (samples (trace ?w) @ fst (tf (env ?w)) # samples tr')"
    using mono by (simp add: samples_append)
  then have "\<forall>x\<in>set (samples (trace ?w)). x \<le> fst (tf (env ?w))"
    by (simp add: sorted_append)
  with inv show ?thesis by blast
qed

text \<open>
  Claim C1, as amended. Take a gate from its construction through a sequence of polls
  whose units of work do not poll the gate themselves, with a time source whose readings
  never decrease over the run (no wraparound). Let \<open>w\<close> be the state before poll \<open>i\<close>
  and \<open>t\<close> the reading poll \<open>i\<close> takes for its comparison. Then \<open>t_prev \<le> t\<close>, and poll
  \<open>i\<close> calls the unit of work if and only if \<open>t\<close> minus \<open>t_prev\<close>, as numbers, is at least
  \<open>interval\<close>. On a firing poll \<open>t_prev\<close> is set to \<open>t'\<close>, the second reading of that poll;
  it is \<open>t\<close> only when the time source returns the same value twice. A poll that does not
  fire leaves the gate as it was.
\<close>

theorem gating_correctness:
  assumes works: "\<forall>f\<in>set fs. unit_of_work f"
    and mono: "sorted (samples (trace (run tf fs (IntervalAction_ctor tf iv e0))))"
    and i: "i < length fs"
    and before: "w = run tf (take i fs) (IntervalAction_ctor tf iv e0)"
    and first: "tf (env w) = (t, e1)"
    and second: "tf e1 = (t', e2)"
  shows "run tf (take (Suc i) fs) (IntervalAction_ctor tf iv e0) = operator_call tf (fs ! i) w \<and>
         t_prev (gate w) \<le> t \<and>
         (invocations (trace (operator_call tf (fs ! i) w)) = Suc (invocations (trace w)) \<longleftrightarrow>
            unat (interval (gate w)) \<le> unat t - unat (t_prev (gate w))) \<and>
         (invocations (trace (operator_call tf (fs ! i) w)) = invocations (trace w) \<longleftrightarrow>
            unat t - unat (t_prev (gate w)) < unat (interval (gate w))) \<and>
         (unat (interval (gate w)) \<le> unat t - unat (t_prev (gate w)) \<longrightarrow>
            t_prev (gate (operator_call tf (fs ! i) w)) = t') \<and>
         (unat t - unat (t_prev (gate w)) < unat (interval (gate w)) \<longrightarrow>
            gate (operator_call tf (fs ! i) w) = gate w)"
proof -
  have w: "\<And>f. f \<in> set fs \<Longrightarrow> unit_of_work f" using works by blast
  have wi: "unit_of_work (fs ! i)" using works i by simp
  have le: "t_prev (gate w) \<le> t"
    using no_wraparound_at_poll [OF w mono i] first by (simp add: before)
  then have diff: "unat (t - t_prev (gate w)) = unat t - unat (t_prev (gate w))"
    by (rule unat_sub)
  have closed: "gate_closed tf w \<longleftrightarrow> unat t - unat (t_prev (gate w)) < unat (interval (gate w))"
    using first by (simp add: gate_closed_def word_less_nat_alt diff)
  have tr: "trace (operator_call tf (fs ! i) w) =
      trace w @ (if gate_closed tf w then [Sample t] else [Sample t, Sample t', Invoke])"
    using operator_call_trace [OF wi, of tf w] first second by simp
  have tp: "t_prev (gate (operator_call tf (fs ! i) w)) = (if gate_closed tf w then t_prev (gate w) else t')"
    using operator_call_t_prev [OF wi, of tf w] first second by simp
  have g: "gate_closed tf w \<Longrightarrow> gate (operator_call tf (fs ! i) w) = gate w"
    by (simp add: operator_call_gate_closed)
  have step: "run tf (take (Suc i) fs) (IntervalAction_ctor tf iv e0) = operator_call tf (fs ! i) w"
    using i by (simp add: run_take_Suc before)
  from step le closed tr tp g show ?thesis
    by (auto simp: invocations_append not_less)
qed

text \<open>
  The scenario of the specification: constructed at 1000 with the interval 500, polled at
  1200 (closed), 1600 (fires, and reads 1600 again) and 1650 (closed).
\<close>

theorem gating_correctness_witness:
  "t_prev (gate (run scripted [id] (IntervalAction_ctor scripted 500 [1000, 1200, 1600, 1600, 1650 :: u32])))
     \<le> 1600 \<and>
   invocations (trace (run scripted [id, id] (IntervalAction_ctor scripted 500 [1000, 1200, 1600, 1600, 1650 :: u32])))
     = Suc (invocations (trace (run scripted [id] (IntervalAction_ctor scripted 500 [1000, 1200, 1600, 1600, 1650 :: u32])))) \<and>
   t_prev (gate (run scripted [id, id] (IntervalAction_ctor scripted 500 [1000, 1200, 1600, 1600, 1650 :: u32])))
     = 1600 \<and>
   gate (run scripted [id, id, id] (IntervalAction_ctor scripted 500 [1000, 1200, 1600, 1600, 1650 :: u32]))
     = \<lparr>interval = 500, t_prev = 1600\<rparr>"
proof -
  let ?c = "IntervalAction_ctor scripted 500 [1000, 1200, 1600, 1600, 1650 :: u32]"
  let ?fs = "[id, id, id :: (32, u32 list) work]"
  let ?w1 = "\<lparr>gate = \<lparr>interval = 500, t_prev = 1000 :: u32\<rparr>, env = [1600, 1600, 1650 :: u32],
              trace = [Sample 1000, Sample 1200]\<rparr>"
  let ?w2 = "\<lparr>gate = \<lparr>interval = 500, t_prev = 1600 :: u32\<rparr>, env = [1650 :: u32],
              trace = [Sample 1000, Sample 1200, Sample 1600, Sample 1600, Invoke]\<rparr>"
  have r1: "run scripted [id] ?c = ?w1"
    by (simp add: IntervalAction_ctor_def operator_call_def sample_def)
  have o2: "operator_call scripted id ?w1 = ?w2"
    by (simp add: operator_call_def sample_def)
  have r2: "run scripted [id, id] ?c = ?w2"
    using r1 o2 by simp
  have r3: "run scripted ?fs ?c =
      ?w2\<lparr>env := [], trace := [Sample 1000, Sample 1200, Sample 1600, Sample 1600, Invoke, Sample 1650]\<rparr>"
    using r2 by (simp add: operator_call_def sample_def)
  have works: "\<forall>f\<in>set ?fs. unit_of_work f" by (simp add: unit_of_work_id)
  have mono: "sorted (samples (trace (run scripted ?fs ?c)))" unfolding r3 by simp
  have i: "1 < length ?fs" by simp
  have before: "?w1 = run scripted (take 1 ?fs) ?c" using r1 by simp
  have first: "scripted (env ?w1) = (1600, [1600, 1650])" by simp
  have second: "scripted [1600, 1650 :: u32] = (1600, [1650])" by simp
  note T = gating_correctness [OF works mono i before first second]
  from T have "t_prev (gate ?w1) \<le> 1600" by simp
  then have p1: "t_prev (gate (run scripted [id] ?c)) \<le> 1600" by (simp only: r1)
  from T have "invocations (trace (operator_call scripted id ?w1)) = Suc (invocations (trace ?w1))"
    by simp
  then have p2: "invocations (trace (run scripted [id, id] ?c)) =
      Suc (invocations (trace (run scripted [id] ?c)))"
    by (simp only: r1 r2 o2)
  from T have "t_prev (gate (operator_call scripted id ?w1)) = 1600" by simp
  then have p3: "t_prev (gate (run scripted [id, id] ?c)) = 1600" by (simp only: r2 o2)
  have p4: "gate (run scripted ?fs ?c) = \<lparr>interval = 500, t_prev = 1600\<rparr>" unfolding r3 by simp
  from p1 p2 p3 p4 show ?thesis by (intro conjI)
qed

text \<open>
  Claim C1 as stated fails where the time source goes on during a poll: the poll at 1600
  fires, reads 1604 for the store, and \<open>t_prev\<close> is not the 1600 that was compared.
\<close>

theorem gating_last_fire_counterexample:
  "fst (scripted (env (run scripted [id] (IntervalAction_ctor scripted 500 [1000, 1200, 1600, 1604 :: u32]))))
     = 1600 \<and>
   invocations (trace (run scripted [id, id] (IntervalAction_ctor scripted 500 [1000, 1200, 1600, 1604 :: u32])))
     = Suc (invocations (trace (run scripted [id] (IntervalAction_ctor scripted 500 [1000, 1200, 1600, 1604 :: u32])))) \<and>
   t_prev (gate (run scripted [id, id] (IntervalAction_ctor scripted 500 [1000, 1200, 1600, 1604 :: u32])))
     \<noteq> 1600"
  by (simp add: IntervalAction_ctor_def operator_call_def sample_def)

section \<open>Construction and the first poll\<close>

lemma IntervalAction_ctor_eq:
  "tf e = (v, e0) \<Longrightarrow>
   IntervalAction_ctor tf iv e = \<lparr>gate = \<lparr>interval = iv, t_prev = v\<rparr>, env = e0, trace = [Sample v]\<rparr>"
  by (simp add: IntervalAction_ctor_def)

text \<open>
  Claim C5, as amended. The constructor reads the time source once, stores the reading in
  \<open>t_prev\<close> and \<open>iv\<close> in \<open>interval\<close>. The first poll fires exactly when its reading \<open>a\<close>
  minus the reading \<open>v\<close> of the constructor reaches \<open>iv\<close>; with \<open>iv \<noteq> 0\<close> a first poll
  at the time of the construction (\<open>a = v\<close>) does not fire.
\<close>

theorem construction_delays_first_fire:
  assumes "tf e = (v, e0)" and "tf e0 = (a, e1)" and "tf e1 = (b, e2)"
  shows "IntervalAction_ctor tf iv e =
           \<lparr>gate = \<lparr>interval = iv, t_prev = v\<rparr>, env = e0, trace = [Sample v]\<rparr> \<and>
         operator_call tf func (IntervalAction_ctor tf iv e) =
           (if iv \<le> a - v
            then func \<lparr>gate = \<lparr>interval = iv, t_prev = b\<rparr>, env = e2,
                       trace = [Sample v, Sample a, Sample b, Invoke]\<rparr>
            else \<lparr>gate = \<lparr>interval = iv, t_prev = v\<rparr>, env = e1, trace = [Sample v, Sample a]\<rparr>) \<and>
         (iv \<noteq> 0 \<and> a = v \<longrightarrow>
            operator_call tf func (IntervalAction_ctor tf iv e) =
              \<lparr>gate = \<lparr>interval = iv, t_prev = v\<rparr>, env = e1, trace = [Sample v, Sample a]\<rparr>)"
proof -
  let ?c = "\<lparr>gate = \<lparr>interval = iv, t_prev = v\<rparr>, env = e0, trace = [Sample v]\<rparr>"
  have c: "IntervalAction_ctor tf iv e = ?c"
    using assms(1) by (rule IntervalAction_ctor_eq)
  have p: "operator_call tf func ?c =
           (if iv \<le> a - v
            then func \<lparr>gate = \<lparr>interval = iv, t_prev = b\<rparr>, env = e2,
                       trace = [Sample v, Sample a, Sample b, Invoke]\<rparr>
            else \<lparr>gate = \<lparr>interval = iv, t_prev = v\<rparr>, env = e1, trace = [Sample v, Sample a]\<rparr>)"
  proof (cases "iv \<le> a - v")
    case True
    with operator_call_fires [of tf ?c a e1 b e2 func] assms(2,3) show ?thesis by simp
  next
    case False
    with operator_call_closed [of tf ?c a e1 func] assms(2) show ?thesis by simp
  qed
  have "iv \<noteq> 0 \<Longrightarrow> \<not> iv \<le> 0" by (simp add: word_gt_0)
  with c p show ?thesis by simp
qed

text \<open>
  A gate with the interval 500 constructed at 1000: polled at once on a counter that
  has gone on by 4, and polled at 1000 on a clock that stands still.
\<close>

theorem construction_delays_first_fire_witness:
  "IntervalAction_ctor (ticking 4) 500 (1000 :: u32) =
     \<lparr>gate = \<lparr>interval = 500, t_prev = 1000\<rparr>, env = 1004, trace = [Sample 1000]\<rparr> \<and>
   operator_call (ticking 4) id (IntervalAction_ctor (ticking 4) 500 (1000 :: u32)) =
     \<lparr>gate = \<lparr>interval = 500, t_prev = 1000\<rparr>, env = 1008, trace = [Sample 1000, Sample 1004]\<rparr> \<and>
   operator_call (frozen 1000) id (IntervalAction_ctor (frozen 1000) 500 ()) =
     \<lparr>gate = \<lparr>interval = 500, t_prev = 1000 :: u32\<rparr>, env = (), trace = [Sample 1000, Sample 1000]\<rparr>"
proof -
  have t: "ticking 4 (1000 :: u32) = (1000, 1004)" "ticking 4 (1004 :: u32) = (1004, 1008)"
    "ticking 4 (1008 :: u32) = (1008, 1012)"
    by (simp_all add: ticking_def)
  note T = construction_delays_first_fire [of "ticking 4" 1000 1000 1004 1004 1008 1008 1012 500 id, OF t]
  from T have p1: "IntervalAction_ctor (ticking 4) 500 (1000 :: u32) =
     \<lparr>gate = \<lparr>interval = 500, t_prev = 1000\<rparr>, env = 1004, trace = [Sample 1000]\<rparr>"
    by (rule conjunct1)
  from T [THEN conjunct2, THEN conjunct1]
  have p2: "operator_call (ticking 4) id (IntervalAction_ctor (ticking 4) 500 (1000 :: u32)) =
     \<lparr>gate = \<lparr>interval = 500, t_prev = 1000\<rparr>, env = 1008, trace = [Sample 1000, Sample 1004]\<rparr>"
    by simp
  have f: "frozen (1000 :: u32) () = (1000, ())" by (simp add: frozen_def)
  from construction_delays_first_fire [of "frozen 1000" "()" 1000 "()" 1000 "()" 1000 "()" 500 id,
      OF f f f, THEN conjunct2, THEN conjunct2]
  have p3: "operator_call (frozen 1000) id (IntervalAction_ctor (frozen 1000) 500 ()) =
     \<lparr>gate = \<lparr>interval = 500, t_prev = 1000 :: u32\<rparr>, env = (), trace = [Sample 1000, Sample 1000]\<rparr>"
    by simp
  from p1 p2 p3 show ?thesis by (intro conjI)
qed

text \<open>
  Claim C5 as stated fails at \<open>iv = 0\<close>: the first poll fires at the very time of the
  construction.
\<close>

theorem first_poll_fires_at_once_counterexample:
  "operator_call (frozen 1000) id (IntervalAction_ctor (frozen 1000) 0 ()) =
     \<lparr>gate = \<lparr>interval = 0, t_prev = 1000 :: u32\<rparr>, env = (),
      trace = [Sample 1000, Sample 1000, Sample 1000, Invoke]\<rparr>"
  by (simp add: IntervalAction_ctor_def operator_call_def sample_def frozen_def)

section \<open>Two polls at one time\<close>




section \<open>The store precedes the call\<close>

text \<open>
  Claim C7, as amended. On a firing poll \<open>t_prev\<close> already holds the new reading \<open>b\<close> when
  the unit of work is called: \<open>func\<close> is applied to the state with \<open>t_prev = b\<close>. A unit
  of work that polls the same gate again is compared against \<open>b\<close>, not against the old
  \<open>t_prev\<close>: with the reading \<open>c\<close>, the inner poll fires if and only if \<open>c - b\<close> reaches
  \<open>interval\<close>. So it does not fire at the time \<open>b\<close> itself when the interval is not 0;
  it does fire, a second time within the outer poll, when the interval is 0 or when the
  interval has gone by since \<open>b\<close>.
\<close>

theorem t_prev_stored_before_invocation:
  assumes first: "tf (env w) = (a, e1)" and second: "tf e1 = (b, e2)"
    and fires: "interval (gate w) \<le> a - t_prev (gate w)"
    and third: "tf e2 = (c, e3)" and fourth: "tf e3 = (d, e4)"
  shows "operator_call tf func w =
           func \<lparr>gate = (gate w)\<lparr>t_prev := b\<rparr>, env = e2,
                 trace = trace w @ [Sample a, Sample b, Invoke]\<rparr> \<and>
         operator_call tf (operator_call tf inner) w =
           (if interval (gate w) \<le> c - b
            then inner \<lparr>gate = (gate w)\<lparr>t_prev := d\<rparr>, env = e4,
                        trace = trace w @ [Sample a, Sample b, Invoke, Sample c, Sample d, Invoke]\<rparr>
            else \<lparr>gate = (gate w)\<lparr>t_prev := b\<rparr>, env = e3,
                  trace = trace w @ [Sample a, Sample b, Invoke, Sample c]\<rparr>) \<and>
         (interval (gate w) \<noteq> 0 \<and> c = b \<longrightarrow>
            operator_call tf (operator_call tf inner) w =
              \<lparr>gate = (gate w)\<lparr>t_prev := b\<rparr>, env = e3,
               trace = trace w @ [Sample a, Sample b, Invoke, Sample c]\<rparr>)"
proof -
  let ?v = "\<lparr>gate = (gate w)\<lparr>t_prev := b\<rparr>, env = e2, trace = trace w @ [Sample a, Sample b, Invoke]\<rparr>"
  have outer: "operator_call tf g w = g ?v" for g
    using first second fires by (rule operator_call_fires)
  have nested: "operator_call tf inner ?v =
           (if interval (gate w) \<le> c - b
            then inner \<lparr>gate = (gate w)\<lparr>t_prev := d\<rparr>, env = e4,
                        trace = trace w @ [Sample a, Sample b, Invoke, Sample c, Sample d, Invoke]\<rparr>
            else \<lparr>gate = (gate w)\<lparr>t_prev := b\<rparr>, env = e3,
                  trace = trace w @ [Sample a, Sample b, Invoke, Sample c]\<rparr>)"
  proof (cases "interval (gate w) \<le> c - b")
    case True
    with operator_call_fires [of tf ?v c e3 d e4 inner] third fourth show ?thesis by simp
  next
    case False
    with operator_call_closed [of tf ?v c e3 inner] third show ?thesis by simp
  qed
  have two: "operator_call tf (operator_call tf inner) w =
           (if interval (gate w) \<le> c - b
            then inner \<lparr>gate = (gate w)\<lparr>t_prev := d\<rparr>, env = e4,
                        trace = trace w @ [Sample a, Sample b, Invoke, Sample c, Sample d, Invoke]\<rparr>
            else \<lparr>gate = (gate w)\<lparr>t_prev := b\<rparr>, env = e3,
                  trace = trace w @ [Sample a, Sample b, Invoke, Sample c]\<rparr>)"
    by (simp only: outer nested)
  have three: "operator_call tf (operator_call tf inner) w =
              \<lparr>gate = (gate w)\<lparr>t_prev := b\<rparr>, env = e3,
               trace = trace w @ [Sample a, Sample b, Invoke, Sample c]\<rparr>"
    if "interval (gate w) \<noteq> 0" and "c = b"
  proof -
    from that have "\<not> interval (gate w) \<le> c - b" by (simp add: word_gt_0)
    with two show ?thesis by (simp only: if_False)
  qed
  from outer [of func] two three show ?thesis by blast
qed

text \<open>
  A unit of work that polls its own gate again: while the clock stands at 1600, and on a
  clock that reads 1700 at the inner poll, 96 after the stored 1604.
\<close>

theorem t_prev_stored_before_invocation_witness:
  "operator_call (frozen 1600) (operator_call (frozen 1600) id)
     \<lparr>gate = \<lparr>interval = 500, t_prev = 1000 :: u32\<rparr>, env = (), trace = []\<rparr> =
     \<lparr>gate = \<lparr>interval = 500, t_prev = 1600\<rparr>, env = (),
      trace = [Sample 1600, Sample 1600, Invoke, Sample 1600]\<rparr> \<and>
   operator_call scripted (operator_call scripted id)
     \<lparr>gate = \<lparr>interval = 500, t_prev = 1000 :: u32\<rparr>, env = [1600, 1604, 1700, 1704], trace = []\<rparr> =
     \<lparr>gate = \<lparr>interval = 500, t_prev = 1604\<rparr>, env = [1704],
      trace = [Sample 1600, Sample 1604, Invoke, Sample 1700]\<rparr>"
proof -
  let ?w = "\<lparr>gate = \<lparr>interval = 500, t_prev = 1000 :: u32\<rparr>, env = (), trace = []\<rparr>"
  have r: "frozen 1600 (env ?w) = (1600 :: u32, ())" "frozen (1600 :: u32) () = (1600, ())"
    by (simp_all add: frozen_def)
  have fires: "interval (gate ?w) \<le> 1600 - t_prev (gate ?w)" by simp
  have at_b: "interval (gate ?w) \<noteq> 0 \<and> (1600 :: u32) = 1600" by simp
  note T = t_prev_stored_before_invocation [of "frozen 1600" ?w 1600 "()" 1600 "()" 1600 "()" 1600 "()" id id,
      OF r fires r(2) r(2)]
  from T [THEN conjunct2, THEN conjunct2, THEN mp, OF at_b]
  have p1: "operator_call (frozen 1600) (operator_call (frozen 1600) id) ?w =
     \<lparr>gate = \<lparr>interval = 500, t_prev = 1600\<rparr>, env = (),
      trace = [Sample 1600, Sample 1600, Invoke, Sample 1600]\<rparr>"
    by simp
  let ?u = "\<lparr>gate = \<lparr>interval = 500, t_prev = 1000 :: u32\<rparr>, env = [1600, 1604, 1700, 1704 :: u32], trace = []\<rparr>"
  have s: "scripted (env ?u) = (1600, [1604, 1700, 1704])"
    "scripted [1604, 1700, 1704 :: u32] = (1604, [1700, 1704])"
    "scripted [1700, 1704 :: u32] = (1700, [1704])"
    "scripted [1704 :: u32] = (1704, [])"
    by simp_all
  have fires': "interval (gate ?u) \<le> 1600 - t_prev (gate ?u)" by simp
  note U = t_prev_stored_before_invocation [of scripted ?u 1600 "[1604, 1700, 1704]" 1604 "[1700, 1704]"
      1700 "[1704]" 1704 "[]" id id, OF s(1) s(2) fires' s(3) s(4)]
  from U [THEN conjunct2, THEN conjunct1]
  have p2: "operator_call scripted (operator_call scripted id) ?u =
     \<lparr>gate = \<lparr>interval = 500, t_prev = 1604\<rparr>, env = [1704],
      trace = [Sample 1600, Sample 1604, Invoke, Sample 1700]\<rparr>"
    by simp
  from p1 p2 show ?thesis by (intro conjI)
qed

text \<open>
  Claim C7 as stated fails for a unit of work that polls its own gate after the interval
  has gone by (stored 1600, inner reading 2200, interval 500), and for the interval 0: the
  unit of work is called twice within the one outer poll.
\<close>

theorem reentrant_poll_fires_again_counterexample:
  "invocations (trace (operator_call scripted (operator_call scripted id)
     \<lparr>gate = \<lparr>interval = 500, t_prev = 1000 :: u32\<rparr>, env = [1600, 1600, 2200, 2200], trace = []\<rparr>)) = 2 \<and>
   invocations (trace (operator_call (frozen 1600) (operator_call (frozen 1600) id)
     \<lparr>gate = \<lparr>interval = 0, t_prev = 1000 :: u32\<rparr>, env = (), trace = []\<rparr>)) = 2"
  by (simp add: operator_call_def sample_def frozen_def)

section \<open>set_interval from inside the unit of work\<close>

text \<open>
  Claim C8. Let the unit of work of a poll call \<open>set_interval iv'\<close> on its gate, after
  any work \<open>pre\<close> and before any work \<open>post\<close> that leaves the interval alone. The poll
  that is running has decided with the old interval: it fires if and only if the old
  interval is reached. After a firing poll \<open>get_interval\<close> returns \<open>iv'\<close>, and the next
  poll fires if and only if its reading minus \<open>t_prev\<close> reaches \<open>iv'\<close>. A poll that does
  not fire leaves the interval as it was.
\<close>

theorem set_interval_takes_effect_at_next_poll:
  assumes pre: "unit_of_work pre" and post: "unit_of_work post"
    and keeps: "\<forall>v. interval (gate (post v)) = interval (gate v)"
    and func: "func = (\<lambda>v. post ((pre v)\<lparr>gate := set_interval iv' (gate (pre v))\<rparr>))"
    and next_work: "unit_of_work func'"
    and first: "tf (env w) = (a, e1)"
    and after: "w' = operator_call tf func w"
    and next_first: "tf (env w') = (c, e3)"
  shows "(invocations (trace w') = Suc (invocations (trace w)) \<longleftrightarrow>
            interval (gate w) \<le> a - t_prev (gate w)) \<and>
         (interval (gate w) \<le> a - t_prev (gate w) \<longrightarrow>
            get_interval (gate w') = iv' \<and>
            (invocations (trace (operator_call tf func' w')) = Suc (invocations (trace w')) \<longleftrightarrow>
               iv' \<le> c - t_prev (gate w'))) \<and>
         (a - t_prev (gate w) < interval (gate w) \<longrightarrow> get_interval (gate w') = get_interval (gate w))"
proof -
  have work: "unit_of_work func"
    using pre post by (simp add: func unit_of_work_def set_interval_def)
  have sets: "interval (gate (func v)) = iv'" for v
    using keeps by (simp add: func set_interval_def)
  have closed: "gate_closed tf w \<longleftrightarrow> \<not> interval (gate w) \<le> a - t_prev (gate w)"
    using first by (simp add: gate_closed_def not_le)
  have inv: "invocations (trace w') = Suc (invocations (trace w)) \<longleftrightarrow> \<not> gate_closed tf w"
    by (simp add: after operator_call_trace [OF work] invocations_append)
  have new: "interval (gate w') = iv'" if "\<not> gate_closed tf w"
    using that sets by (simp add: after operator_call_cases)
  have old: "interval (gate w') = interval (gate w)" if "gate_closed tf w"
    using that by (simp add: after operator_call_gate_closed)
  have nxt: "invocations (trace (operator_call tf func' w')) = Suc (invocations (trace w')) \<longleftrightarrow>
      \<not> gate_closed tf w'"
    by (simp add: operator_call_trace [OF next_work] invocations_append)
  have closed': "gate_closed tf w' \<longleftrightarrow> \<not> interval (gate w') \<le> c - t_prev (gate w')"
    using next_first by (simp add: gate_closed_def not_le)
  from closed inv new old nxt closed' show ?thesis by (auto simp: not_le get_interval_def)
qed

text \<open>
  Interval 1000, last firing at 0. The poll at 1500 fires although the unit of work sets
  the interval to 1800; the next poll, at 3000, is 1500 after the new \<open>t_prev\<close> and does
  not fire, as the old interval would have let it.
\<close>

theorem set_interval_takes_effect_at_next_poll_witness:
  "invocations (trace (operator_call scripted (reconfigure 1800)
      \<lparr>gate = \<lparr>interval = 1000, t_prev = 0 :: u32\<rparr>, env = [1500, 1500, 3000], trace = []\<rparr>)) = Suc 0 \<and>
   get_interval (gate (operator_call scripted (reconfigure 1800)
      \<lparr>gate = \<lparr>interval = 1000, t_prev = 0 :: u32\<rparr>, env = [1500, 1500, 3000], trace = []\<rparr>)) = 1800 \<and>
   invocations (trace (run scripted [reconfigure 1800, reconfigure 1800]
      \<lparr>gate = \<lparr>interval = 1000, t_prev = 0 :: u32\<rparr>, env = [1500, 1500, 3000], trace = []\<rparr>)) = Suc 0"
proof -
  let ?w = "\<lparr>gate = \<lparr>interval = 1000, t_prev = 0 :: u32\<rparr>, env = [1500, 1500, 3000 :: u32], trace = []\<rparr>"
  let ?w' = "\<lparr>gate = \<lparr>interval = 1800, t_prev = 1500 :: u32\<rparr>, env = [3000 :: u32],
              trace = [Sample 1500, Sample 1500, Invoke]\<rparr>"
  have keeps: "\<forall>v :: (32, u32 list) gate_world. interval (gate (id v)) = interval (gate v)" by simp
  have func: "(reconfigure 1800 :: (32, u32 list) work) =
      (\<lambda>v. id ((id v)\<lparr>gate := set_interval 1800 (gate (id v))\<rparr>))"
    by (rule ext) (simp add: reconfigure_def)
  have first: "scripted (env ?w) = (1500, [1500, 3000])" by simp
  have after: "?w' = operator_call scripted (reconfigure 1800) ?w"
    by (simp add: operator_call_def sample_def reconfigure_def set_interval_def)
  have next_first: "scripted (env ?w') = (3000, [])" by simp
  have fires: "interval (gate ?w) \<le> 1500 - t_prev (gate ?w)" by simp
  note T = set_interval_takes_effect_at_next_poll [of id id "reconfigure 1800" 1800 "reconfigure 1800"
      scripted ?w 1500 "[1500, 3000]" ?w' 3000 "[]",
      OF unit_of_work_id unit_of_work_id keeps func unit_of_work_reconfigure first after next_first]
  from T [THEN conjunct1, THEN iffD2, OF fires]
  have p1: "invocations (trace (operator_call scripted (reconfigure 1800) ?w)) = Suc 0"
    by (simp add: after [symmetric])
  from T [THEN conjunct2, THEN conjunct1, THEN mp, OF fires, THEN conjunct1]
  have p2: "get_interval (gate (operator_call scripted (reconfigure 1800) ?w)) = 1800"
    by (simp only: after [symmetric])
  from T [THEN conjunct2, THEN conjunct1, THEN mp, OF fires, THEN conjunct2]
  have "invocations (trace (operator_call scripted (reconfigure 1800) ?w')) \<noteq> Suc (invocations (trace ?w'))"
    by simp
  then have p3: "invocations (trace (run scripted [reconfigure 1800, reconfigure 1800] ?w)) = Suc 0"
    by (simp add: after [symmetric] operator_call_def sample_def reconfigure_def set_interval_def)
  from p1 p2 p3 show ?thesis by (intro conjI)
qed

section \<open>The three variants\<close>

lemma ctor_memfn_same_state:
  "same_state_memfn c (IntervalActionMEMFN_ctor m c iv e) (IntervalAction_ctor (m c) iv e)"
  by (simp add: same_state_memfn_def IntervalActionMEMFN_ctor_def IntervalAction_ctor_def
      split: prod.split)

lemma ctor_tpl_same_state:
  "same_state_tpl tf (IntervalActionTPL_ctor tf iv e) (IntervalAction_ctor tf iv e)"
  by (simp add: same_state_tpl_def IntervalActionTPL_ctor_def IntervalAction_ctor_def
      split: prod.split)

text \<open>One poll keeps a variant and \<open>IntervalAction\<close> in the same state.\<close>

lemma operator_call_memfn_same_state:
  assumes "same_state_memfn c wm w" and "corresponding_memfn c fm f"
  shows "same_state_memfn c (operator_call_memfn m fm wm) (operator_call (m c) f w)"
proof -
  obtain a e1 where r1: "m c (env w) = (a, e1)" by (cases "m c (env w)")
  obtain b e2 where r2: "m c e1 = (b, e2)" by (cases "m c e1")
  show ?thesis
  proof (cases "interval (gate w) \<le> a - t_prev (gate w)")
    case True
    let ?vm = "\<lparr>gate = (gate wm)\<lparr>t_prev_memfn := b\<rparr>, env = e2,
                trace = trace wm @ [Sample a, Sample b, Invoke]\<rparr>"
    let ?v = "\<lparr>gate = (gate w)\<lparr>t_prev := b\<rparr>, env = e2,
               trace = trace w @ [Sample a, Sample b, Invoke]\<rparr>"
    have "operator_call_memfn m fm wm = fm ?vm"
      using assms(1) r1 r2 True
      by (cases wm) (simp add: operator_call_memfn_def sample_def same_state_memfn_def)
    moreover have "operator_call (m c) f w = f ?v"
      using r1 r2 True by (rule operator_call_fires)
    moreover have "same_state_memfn c ?vm ?v"
      using assms(1) by (simp add: same_state_memfn_def)
    ultimately show ?thesis
      using assms(2) by (simp add: corresponding_memfn_def)
  next
    case False
    then have lt: "a - t_prev (gate w) < interval (gate w)" by simp
    have "operator_call_memfn m fm wm = \<lparr>gate = gate wm, env = e1, trace = trace wm @ [Sample a]\<rparr>"
      using assms(1) r1 False
      by (cases wm) (simp add: operator_call_memfn_def sample_def same_state_memfn_def)
    moreover have "operator_call (m c) f w = \<lparr>gate = gate w, env = e1, trace = trace w @ [Sample a]\<rparr>"
      using r1 lt by (rule operator_call_closed)
    ultimately show ?thesis
      using assms(1) by (simp add: same_state_memfn_def)
  qed
qed

lemma operator_call_tpl_same_state:
  assumes "same_state_tpl tf wt w" and "corresponding_tpl tf ft f"
  shows "same_state_tpl tf (operator_call_tpl ft wt) (operator_call tf f w)"
proof -
  obtain a e1 where r1: "tf (env w) = (a, e1)" by (cases "tf (env w)")
  obtain b e2 where r2: "tf e1 = (b, e2)" by (cases "tf e1")
  show ?thesis
  proof (cases "interval (gate w) \<le> a - t_prev (gate w)")
    case True
    let ?vt = "\<lparr>gate = (gate wt)\<lparr>t_prev_tpl := b\<rparr>, env = e2,
                trace = trace wt @ [Sample a, Sample b, Invoke]\<rparr>"
    let ?v = "\<lparr>gate = (gate w)\<lparr>t_prev := b\<rparr>, env = e2,
               trace = trace w @ [Sample a, Sample b, Invoke]\<rparr>"
    have "operator_call_tpl ft wt = ft ?vt"
      using assms(1) r1 r2 True
      by (cases wt) (simp add: operator_call_tpl_def sample_def same_state_tpl_def)
    moreover have "operator_call tf f w = f ?v"
      using r1 r2 True by (rule operator_call_fires)
    moreover have "same_state_tpl tf ?vt ?v"
      using assms(1) by (simp add: same_state_tpl_def)
    ultimately show ?thesis
      using assms(2) by (simp add: corresponding_tpl_def)
  next
    case False
    then have lt: "a - t_prev (gate w) < interval (gate w)" by simp
    have "operator_call_tpl ft wt = \<lparr>gate = gate wt, env = e1, trace = trace wt @ [Sample a]\<rparr>"
      using assms(1) r1 False
      by (cases wt) (simp add: operator_call_tpl_def sample_def same_state_tpl_def)
    moreover have "operator_call tf f w = \<lparr>gate = gate w, env = e1, trace = trace w @ [Sample a]\<rparr>"
      using r1 lt by (rule operator_call_closed)
    ultimately show ?thesis
      using assms(1) by (simp add: same_state_tpl_def)
  qed
qed

lemma run_memfn_same_state:
  assumes "list_all2 (corresponding_memfn c) fms fs" and "same_state_memfn c wm w"
  shows "same_state_memfn c (run_memfn m fms wm) (run (m c) fs w)"
  using assms
proof (induction arbitrary: wm w rule: list_all2_induct)
  case Nil
  then show ?case by simp
next
  case (Cons fm fms f fs)
  from Cons.prems Cons.hyps(1)
  have "same_state_memfn c (operator_call_memfn m fm wm) (operator_call (m c) f w)"
    by (rule operator_call_memfn_same_state)
  then show ?case by (simp add: Cons.IH)
qed

lemma run_tpl_same_state:
  assumes "list_all2 (corresponding_tpl tf) fts fs" and "same_state_tpl tf wt w"
  shows "same_state_tpl tf (run_tpl fts wt) (run tf fs w)"
  using assms
proof (induction arbitrary: wt w rule: list_all2_induct)
  case Nil
  then show ?case by simp
next
  case (Cons ft fts f fs)
  from Cons.prems Cons.hyps(1)
  have "same_state_tpl tf (operator_call_tpl ft wt) (operator_call tf f w)"
    by (rule operator_call_tpl_same_state)
  then show ?case by (simp add: Cons.IH)
qed

lemma corresponding_memfn_reconfigure:
  "corresponding_memfn c (reconfigure_memfn iv) (reconfigure iv)"
  by (simp add: corresponding_memfn_def same_state_memfn_def reconfigure_memfn_def
      reconfigure_def set_interval_memfn_def set_interval_def)

lemma corresponding_tpl_reconfigure:
  "corresponding_tpl tf (reconfigure_tpl iv) (reconfigure iv)"
  by (simp add: corresponding_tpl_def same_state_tpl_def reconfigure_tpl_def
      reconfigure_def set_interval_tpl_def set_interval_def)

text \<open>
  Claim C9. Bind the three variants to the same time source (the method \<open>m\<close> of the
  object \<open>c\<close>, as a free function and as a callable value), construct them with the same
  interval in the same state, and poll them with corresponding units of work. After any
  number \<open>n\<close> of polls the three are in the same state: \<open>interval\<close> and \<open>t_prev\<close>
  agree, and so do the histories, which hold the readings each poll took and whether it
  called the unit of work.
\<close>

theorem variants_gate_alike:
  assumes "list_all2 (corresponding_memfn c) fms fs"
    and "list_all2 (corresponding_tpl (m c)) fts fs"
  shows "same_state_memfn c
           (run_memfn m (take n fms) (IntervalActionMEMFN_ctor m c iv e))
           (run (m c) (take n fs) (IntervalAction_ctor (m c) iv e)) \<and>
         same_state_tpl (m c)
           (run_tpl (take n fts) (IntervalActionTPL_ctor (m c) iv e))
           (run (m c) (take n fs) (IntervalAction_ctor (m c) iv e))"
proof
  have "list_all2 (corresponding_memfn c) (take n fms) (take n fs)"
    using assms(1) by (rule list_all2_takeI)
  then show "same_state_memfn c
           (run_memfn m (take n fms) (IntervalActionMEMFN_ctor m c iv e))
           (run (m c) (take n fs) (IntervalAction_ctor (m c) iv e))"
    using ctor_memfn_same_state by (rule run_memfn_same_state)
  have "list_all2 (corresponding_tpl (m c)) (take n fts) (take n fs)"
    using assms(2) by (rule list_all2_takeI)
  then show "same_state_tpl (m c)
           (run_tpl (take n fts) (IntervalActionTPL_ctor (m c) iv e))
           (run (m c) (take n fs) (IntervalAction_ctor (m c) iv e))"
    using ctor_tpl_same_state by (rule run_tpl_same_state)
qed

text \<open>
  Three polls at 1200, 1600 and 1650 after a construction at 1000 with the interval 500;
  the unit of work sets the interval to 40.
\<close>

theorem variants_gate_alike_witness:
  "same_state_memfn ()
     (run_memfn (\<lambda>c. scripted) [reconfigure_memfn 40, reconfigure_memfn 40, reconfigure_memfn 40]
        (IntervalActionMEMFN_ctor (\<lambda>c. scripted) () 500 [1000, 1200, 1600, 1604, 1650, 1654 :: u32]))
     (run scripted [reconfigure 40, reconfigure 40, reconfigure 40]
        (IntervalAction_ctor scripted 500 [1000, 1200, 1600, 1604, 1650, 1654 :: u32])) \<and>
   same_state_tpl scripted
     (run_tpl [reconfigure_tpl 40, reconfigure_tpl 40, reconfigure_tpl 40]
        (IntervalActionTPL_ctor scripted 500 [1000, 1200, 1600, 1604, 1650, 1654 :: u32]))
     (run scripted [reconfigure 40, reconfigure 40, reconfigure 40]
        (IntervalAction_ctor scripted 500 [1000, 1200, 1600, 1604, 1650, 1654 :: u32])) \<and>
   run scripted [reconfigure 40, reconfigure 40, reconfigure 40]
        (IntervalAction_ctor scripted 500 [1000, 1200, 1600, 1604, 1650, 1654 :: u32]) =
     \<lparr>gate = \<lparr>interval = 40, t_prev = 1654\<rparr>, env = [],
      trace = [Sample 1000, Sample 1200, Sample 1600, Sample 1604, Invoke, Sample 1650, Sample 1654, Invoke]\<rparr>"
proof -
  let ?fms = "[reconfigure_memfn 40, reconfigure_memfn 40, reconfigure_memfn 40
                :: (32, unit, u32 list) memfn_world \<Rightarrow> (32, unit, u32 list) memfn_world]"
  let ?fts = "[reconfigure_tpl 40, reconfigure_tpl 40, reconfigure_tpl 40
                :: (32, u32 list) tpl_world \<Rightarrow> (32, u32 list) tpl_world]"
  let ?fs = "[reconfigure 40, reconfigure 40, reconfigure 40 :: (32, u32 list) work]"
  have m: "list_all2 (corresponding_memfn ()) ?fms ?fs"
    by (simp add: corresponding_memfn_reconfigure)
  have t: "list_all2 (corresponding_tpl scripted) ?fts ?fs"
    by (simp add: corresponding_tpl_reconfigure)
  note T = variants_gate_alike [of "()" ?fms ?fs "\<lambda>c. scripted" ?fts 3 500 "[1000, 1200, 1600, 1604, 1650, 1654]", OF m t]
  have r: "run scripted ?fs (IntervalAction_ctor scripted 500 [1000, 1200, 1600, 1604, 1650, 1654 :: u32]) =
     \<lparr>gate = \<lparr>interval = 40, t_prev = 1654\<rparr>, env = [],
      trace = [Sample 1000, Sample 1200, Sample 1600, Sample 1604, Invoke, Sample 1650, Sample 1654, Invoke]\<rparr>"
    by (simp add: IntervalAction_ctor_def operator_call_def sample_def reconfigure_def set_interval_def)
  from T [THEN conjunct1] T [THEN conjunct2] r show ?thesis
    by (simp only: take_all length_Cons list.size nat_le_linear)
qed

end
